theory Spec2Isabelle
  imports Complex_Main
begin

section \<open>Numbers\<close>

text \<open>
  Python integers are unbounded and are modelled as \<open>int\<close>.  Python floats (speeds,
  delta times, cooldowns, star thresholds, the player's position) are modelled as exact
  rationals: every arithmetic operation of the source is taken without rounding error.

  \<open>int(v)\<close> on a float truncates toward zero.
\<close>

definition py_int :: "rat \<Rightarrow> int" where
  "py_int v = (if v < 0 then \<lceil>v\<rceil> else \<lfloor>v\<rfloor>)"

text \<open>Decimal rendering of a non-negative integer, for the f-string in the level name.\<close>

definition digit_char :: "nat \<Rightarrow> char" where
  "digit_char d = ''0123456789'' ! d"

fun str_nat :: "nat \<Rightarrow> string" where
  "str_nat n = (if n < 10 then [digit_char n] else str_nat (n div 10) @ [digit_char (n mod 10)])"

declare str_nat.simps [simp del]

definition py_str :: "int \<Rightarrow> string" where
  "py_str i = (if i < 0 then CHR ''-'' # str_nat (nat (- i)) else str_nat (nat i))"


section \<open>Level generator (level.py, \<open>_make_level\<close>)\<close>

text \<open>
  A lane entry of the generated configuration: the dictionary with the keys
  \<open>direction\<close>, \<open>speed\<close>, \<open>spawn_every\<close>, \<open>width\<close> and \<open>gap_min\<close>.  \<open>Level.__init__\<close>
  reads \<open>gap_min\<close> with \<open>.get(..., 140)\<close>, so that key may be absent.
\<close>

record lane_cfg =
  cfg_direction :: int
  cfg_speed :: rat
  cfg_spawn_every :: rat
  cfg_width :: int
  cfg_gap_min :: "int option"

text \<open>
  The level configuration dictionary.  The keys read with \<open>config[...]\<close> in
  \<open>Level.__init__\<close> are plain fields (without them no \<open>Level\<close> object exists); the keys
  read with \<open>.get\<close> are optional; \<open>star_times\<close> is a dictionary from the strings
  \<open>"3"\<close> and \<open>"2"\<close> to thresholds, looked up only when the stars are computed.
\<close>

record level_cfg =
  cfg_name :: string
  cfg_lane_count :: int
  cfg_lane_height :: int
  cfg_finish_padding :: "int option"
  cfg_player_step :: int
  cfg_player_speed :: "rat option"
  cfg_star_times :: "string \<rightharpoonup> rat"
  cfg_lanes :: "lane_cfg list"

text \<open>The body of the loop \<open>for i in range(lane_count)\<close> for the clamped level number \<open>n\<close>.\<close>

definition make_lane :: "int \<Rightarrow> int \<Rightarrow> lane_cfg" where
  "make_lane n i =
    (let direction = (if i mod 2 = 0 then 1 else - 1);
         speed = 170 + (n - 1) * 28 + i * 6;
         spawn_every = max (55 / 100) (125 / 100 - of_int (n - 1) * (6 / 100) - of_int i * (1 / 100));
         width = 120 - (n - 1) * 3;
         width = max 70 (min 130 width);
         gap_min = max 95 (165 - (n - 1) * 6 - i * 1)
     in \<lparr> cfg_direction = direction,
          cfg_speed = of_int speed,
          cfg_spawn_every = spawn_every,
          cfg_width = width,
          cfg_gap_min = Some gap_min \<rparr>)"

definition make_level :: "int \<Rightarrow> level_cfg" where
  "make_level level_num =
    (let n = max 1 (min 10 level_num);
         lane_height = 70 - (n - 1);
         lane_count = 5 + n;
         three_star = max 8 (13 - of_int (n - 1) * (4 / 10));
         two_star = max 12 (20 - of_int (n - 1) * (45 / 100));
         lanes = map (\<lambda>i. make_lane n (int i)) [0 ..< nat lane_count]
     in \<lparr> cfg_name = ''Level '' @ py_str n,
          cfg_lane_count = lane_count,
          cfg_lane_height = lane_height,
          cfg_finish_padding = Some (max 22 (32 - n)),
          cfg_player_step = lane_height,
          cfg_player_speed = Some (of_int (420 + (n - 1) * 10)),
          cfg_star_times = [''3'' \<mapsto> three_star, ''2'' \<mapsto> two_star],
          cfg_lanes = lanes \<rparr>)"

text \<open>\<open>LEVELS = [_make_level(i) for i in range(1, 6)]\<close>\<close>

definition LEVELS :: "level_cfg list" where
  "LEVELS = map (\<lambda>i. make_level (int i)) [1 ..< 6]"


section \<open>Rectangles\<close>

text \<open>
  \<open>pygame.Rect\<close>: integer position and size.  The class belongs to the pygame library,
  which is not part of the repository; the attributes and methods the simulation uses
  are written out here.
\<close>

record rect =
  rect_x :: int
  rect_y :: int
  rect_w :: int
  rect_h :: int

definition Rect :: "int \<Rightarrow> int \<Rightarrow> int \<Rightarrow> int \<Rightarrow> rect" where
  "Rect x y w h = \<lparr> rect_x = x, rect_y = y, rect_w = w, rect_h = h \<rparr>"

definition rect_left :: "rect \<Rightarrow> int" where
  "rect_left r = rect_x r"

definition rect_right :: "rect \<Rightarrow> int" where
  "rect_right r = rect_x r + rect_w r"

definition rect_top :: "rect \<Rightarrow> int" where
  "rect_top r = rect_y r"

definition rect_bottom :: "rect \<Rightarrow> int" where
  "rect_bottom r = rect_y r + rect_h r"

text \<open>Assigning \<open>rect.right = v\<close> or \<open>rect.left = v\<close> moves the rectangle; the size stays.\<close>

definition set_right :: "int \<Rightarrow> rect \<Rightarrow> rect" where
  "set_right v r = r\<lparr> rect_x := v - rect_w r \<rparr>"

definition set_left :: "int \<Rightarrow> rect \<Rightarrow> rect" where
  "set_left v r = r\<lparr> rect_x := v \<rparr>"

text \<open>Integer division of the library's C code: the quotient is truncated toward zero.\<close>

definition c_div :: "int \<Rightarrow> int \<Rightarrow> int" where
  "c_div a b = sgn a * sgn b * (\<bar>a\<bar> div \<bar>b\<bar>)"

definition rect_centery :: "rect \<Rightarrow> int" where
  "rect_centery r = rect_y r + c_div (rect_h r) 2"

text \<open>
  Modelled from the spec: \<open>pygame.Rect.inflate\<close> and \<open>pygame.Rect.colliderect\<close> are
  library code outside the repository.  The spec speaks of shrinking the obstacle's
  rectangle by a padding and of testing intersection with the player's rectangle;
  the definitions follow the library: \<open>inflate(dx, dy)\<close> changes the size by
  \<open>(dx, dy)\<close> and keeps the rectangle centred, and two rectangles collide when their
  interiors overlap (a rectangle of zero width or height collides with nothing,
  touching edges do not collide).
\<close>

definition inflate :: "int \<Rightarrow> int \<Rightarrow> rect \<Rightarrow> rect" where
  "inflate dx dy r =
     Rect (rect_x r - c_div dx 2) (rect_y r - c_div dy 2) (rect_w r + dx) (rect_h r + dy)"

definition colliderect :: "rect \<Rightarrow> rect \<Rightarrow> bool" where
  "colliderect a b =
    (if rect_w a = 0 \<or> rect_h a = 0 \<or> rect_w b = 0 \<or> rect_h b = 0 then False
     else min (rect_x a) (rect_x a + rect_w a) < max (rect_x b) (rect_x b + rect_w b)
        \<and> min (rect_y a) (rect_y a + rect_h a) < max (rect_y b) (rect_y b + rect_h b)
        \<and> max (rect_x a) (rect_x a + rect_w a) > min (rect_x b) (rect_x b + rect_w b)
        \<and> max (rect_y a) (rect_y a + rect_h a) > min (rect_y b) (rect_y b + rect_h b))"


section \<open>Obstacles (obstacle.py, class \<open>Obstacle\<close>)\<close>

text \<open>
  The sprite and the fallback colour of an obstacle are picked at random for drawing
  only; the simulation reads the rectangle, the speed and the direction.
\<close>

record obstacle =
  o_rect :: rect
  o_speed :: rat
  o_direction :: int

definition obstacle_init :: "rect \<Rightarrow> rat \<Rightarrow> int \<Rightarrow> obstacle" where
  "obstacle_init r speed direction =
     \<lparr> o_rect = r, o_speed = speed, o_direction = (if direction \<ge> 0 then 1 else - 1) \<rparr>"

text \<open>\<open>Obstacle.update\<close>: \<open>self.rect.x += int(self.direction * self.speed * dt)\<close>\<close>

definition obstacle_update :: "rat \<Rightarrow> obstacle \<Rightarrow> obstacle" where
  "obstacle_update dt ob =
     ob\<lparr> o_rect := (o_rect ob)\<lparr> rect_x :=
        rect_x (o_rect ob) + py_int (of_int (o_direction ob) * o_speed ob * dt) \<rparr> \<rparr>"


section \<open>Lanes (obstacle.py, class \<open>Lane\<close>)\<close>

record lane =
  l_rect :: rect
  l_direction :: int
  l_speed :: rat
  l_spawn_every :: rat
  l_obstacle_width :: int
  l_obstacle_height :: int
  l_min_gap :: int
  l_obstacles :: "obstacle list"
  l_spawn_timer :: rat

definition lane_init :: "rect \<Rightarrow> int \<Rightarrow> rat \<Rightarrow> rat \<Rightarrow> int \<Rightarrow> int \<Rightarrow> int \<Rightarrow> lane" where
  "lane_init r direction speed spawn_every obstacle_width obstacle_height min_gap =
     \<lparr> l_rect = r,
       l_direction = (if direction \<ge> 0 then 1 else - 1),
       l_speed = speed,
       l_spawn_every = spawn_every,
       l_obstacle_width = obstacle_width,
       l_obstacle_height = obstacle_height,
       l_min_gap = min_gap,
       l_obstacles = [],
       l_spawn_timer = 0 \<rparr>"

text \<open>
  The test of \<open>Lane.reset\<close> on a candidate rectangle \<open>r\<close> against an accepted one \<open>p\<close>:
  \<open>r.right + self.min_gap <= p.left or r.left >= p.right + self.min_gap\<close>.
\<close>

definition gap_ok :: "int \<Rightarrow> rect \<Rightarrow> rect \<Rightarrow> bool" where
  "gap_ok g r p \<longleftrightarrow> rect_right r + g \<le> rect_left p \<or> rect_left r \<ge> rect_right p + g"

text \<open>
  The loop \<open>for x in candidates\<close> of \<open>Lane.reset\<close>: it stops once \<open>seed_count\<close>
  rectangles are placed, and accepts a candidate that keeps the gap to every placed one.
\<close>

fun place_seeds :: "lane \<Rightarrow> int \<Rightarrow> int \<Rightarrow> int list \<Rightarrow> rect list \<Rightarrow> rect list" where
  "place_seeds L seed_count y [] placed = placed"
| "place_seeds L seed_count y (x # xs) placed =
     (if int (length placed) \<ge> seed_count then placed
      else let r = Rect x y (l_obstacle_width L) (l_obstacle_height L)
           in if list_all (gap_ok (l_min_gap L) r) placed
              then place_seeds L seed_count y xs (placed @ [r])
              else place_seeds L seed_count y xs placed)"

text \<open>
  \<open>Lane.reset\<close>.  The random draws of the source are arguments: \<open>seed_count\<close> is
  \<open>random.randint(1, 3)\<close> and \<open>candidates\<close> the forty draws of
  \<open>random.randint(0, max(0, self.rect.width - self.obstacle_width))\<close>.
  Python's \<open>//\<close> is the flooring division, as \<open>div\<close> is.
\<close>

definition lane_reset :: "int \<Rightarrow> int list \<Rightarrow> lane \<Rightarrow> lane" where
  "lane_reset seed_count candidates L =
    (let candidates = sort candidates;
         y = rect_centery (l_rect L) - l_obstacle_height L div 2;
         placed = place_seeds L seed_count y candidates [];
         obstacles = map (\<lambda>r. obstacle_init r (l_speed L) (l_direction L)) placed
     in L\<lparr> l_obstacles := sort_key (\<lambda>ob. rect_x (o_rect ob)) obstacles, l_spawn_timer := 0 \<rparr>)"

text \<open>
  \<open>min(xs, key=f, default=None)\<close> and \<open>max(xs, key=f, default=None)\<close>: the first element
  with the least (greatest) key.
\<close>

fun min_by :: "('a \<Rightarrow> int) \<Rightarrow> 'a list \<Rightarrow> 'a option" where
  "min_by f [] = None"
| "min_by f (x # xs) = Some (foldl (\<lambda>best y. if f y < f best then y else best) x xs)"

fun max_by :: "('a \<Rightarrow> int) \<Rightarrow> 'a list \<Rightarrow> 'a option" where
  "max_by f [] = None"
| "max_by f (x # xs) = Some (foldl (\<lambda>best y. if f y > f best then y else best) x xs)"

definition lane_can_spawn :: "int \<Rightarrow> lane \<Rightarrow> bool" where
  "lane_can_spawn screen_width L =
    (if l_direction L > 0 then
       (let spawn_x = - l_obstacle_width L - 20
        in case min_by (\<lambda>ob. rect_left (o_rect ob)) (l_obstacles L) of
             None \<Rightarrow> True
           | Some nearest \<Rightarrow> (rect_left (o_rect nearest) - spawn_x) \<ge> l_min_gap L)
     else
       (let spawn_x = screen_width + 20
        in case max_by (\<lambda>ob. rect_right (o_rect ob)) (l_obstacles L) of
             None \<Rightarrow> True
           | Some nearest \<Rightarrow> (spawn_x - rect_right (o_rect nearest)) \<ge> l_min_gap L))"

text \<open>The obstacle that \<open>Lane._spawn\<close> creates.\<close>

definition spawn_obstacle :: "int \<Rightarrow> lane \<Rightarrow> obstacle" where
  "spawn_obstacle screen_width L =
    (let y = rect_centery (l_rect L) - l_obstacle_height L div 2;
         x = (if l_direction L > 0 then
                (let base_x = - l_obstacle_width L - 20
                 in case min_by (\<lambda>ob. rect_left (o_rect ob)) (l_obstacles L) of
                      Some nearest \<Rightarrow>
                        min base_x (rect_left (o_rect nearest) - l_min_gap L - l_obstacle_width L)
                    | None \<Rightarrow> base_x)
              else
                (let base_x = screen_width + 20
                 in case max_by (\<lambda>ob. rect_right (o_rect ob)) (l_obstacles L) of
                      Some nearest \<Rightarrow> max base_x (rect_right (o_rect nearest) + l_min_gap L)
                    | None \<Rightarrow> base_x))
     in obstacle_init (Rect x y (l_obstacle_width L) (l_obstacle_height L))
          (l_speed L) (l_direction L))"

definition lane_spawn :: "int \<Rightarrow> lane \<Rightarrow> lane" where
  "lane_spawn screen_width L = L\<lparr> l_obstacles := l_obstacles L @ [spawn_obstacle screen_width L] \<rparr>"

text \<open>
  The gap pass of \<open>Lane.update\<close> for a lane moving right: the loop runs over
  \<open>i = len - 2, ..., 0\<close>, so the obstacle in front (index \<open>i + 1\<close>) has its final
  position when the one behind it is compared with it.
\<close>

fun push_back_right :: "int \<Rightarrow> obstacle list \<Rightarrow> obstacle list" where
  "push_back_right g [] = []"
| "push_back_right g [ob] = [ob]"
| "push_back_right g (back # rest) =
     (let rest' = push_back_right g rest;
          front = hd rest';
          desired_right = rect_left (o_rect front) - g
      in (if rect_right (o_rect back) > desired_right
          then back\<lparr> o_rect := set_right desired_right (o_rect back) \<rparr>
          else back) # rest')"

text \<open>
  The gap pass for a lane moving left: the loop runs over \<open>i = 1, ..., len - 1\<close> with the
  obstacle in front at index \<open>i - 1\<close>.
\<close>

fun push_back_left :: "int \<Rightarrow> obstacle \<Rightarrow> obstacle list \<Rightarrow> obstacle list" where
  "push_back_left g front [] = []"
| "push_back_left g front (back # rest) =
     (let desired_left = rect_right (o_rect front) + g;
          back' = (if rect_left (o_rect back) < desired_left
                   then back\<lparr> o_rect := set_left desired_left (o_rect back) \<rparr>
                   else back)
      in back' # push_back_left g back' rest)"

definition fix_gaps :: "lane \<Rightarrow> obstacle list \<Rightarrow> obstacle list" where
  "fix_gaps L obs =
    (if length obs > 1 then
       (let obs = sort_key (\<lambda>ob. rect_x (o_rect ob)) obs
        in if l_direction L > 0 then push_back_right (l_min_gap L) obs
           else hd obs # push_back_left (l_min_gap L) (hd obs) (tl obs))
     else obs)"

definition remove_offscreen :: "int \<Rightarrow> lane \<Rightarrow> obstacle list \<Rightarrow> obstacle list" where
  "remove_offscreen screen_width L obs =
    (if l_direction L > 0 then filter (\<lambda>ob. rect_left (o_rect ob) < screen_width + 200) obs
     else filter (\<lambda>ob. rect_right (o_rect ob) > - 200) obs)"

definition lane_update :: "rat \<Rightarrow> int \<Rightarrow> lane \<Rightarrow> lane" where
  "lane_update dt screen_width L =
    (let obs = map (obstacle_update dt) (l_obstacles L);
         obs = fix_gaps L obs;
         obs = remove_offscreen screen_width L obs;
         L = L\<lparr> l_obstacles := obs, l_spawn_timer := l_spawn_timer L + dt \<rparr>
     in if l_spawn_timer L \<ge> l_spawn_every L then
          (let L = L\<lparr> l_spawn_timer := 0 \<rparr>
           in if lane_can_spawn screen_width L then lane_spawn screen_width L else L)
        else L)"


section \<open>Player (player.py, class \<open>Player\<close>)\<close>

text \<open>
  Input events: the simulation looks at key-down events and at their key only.  The
  eight movement keys are named; every other key (Escape, R, ...) is \<open>K_OTHER\<close>, and
  every event that is not a key-down (key-up, mouse, quit) is \<open>OTHER_EVENT\<close>.
\<close>

datatype key = K_UP | K_w | K_DOWN | K_s | K_LEFT | K_a | K_RIGHT | K_d | K_OTHER

datatype event = KEYDOWN key | OTHER_EVENT

text \<open>
  \<open>p_sprite\<close> is the size of the loaded sprite, or \<open>None\<close> when the image could not be
  loaded and the fallback circle is drawn.
\<close>

record player =
  p_start_x :: int
  p_start_y :: int
  p_radius :: int
  p_speed :: rat
  p_step :: int
  p_bounds :: "int \<times> int \<times> int \<times> int"
  p_x :: rat
  p_y :: rat
  p_move_cooldown :: rat
  p_cooldown_time :: rat
  p_sprite :: "(int \<times> int) option"

definition player_init :: "int \<Rightarrow> int \<Rightarrow> int \<Rightarrow> rat \<Rightarrow> int \<Rightarrow> int \<times> int \<times> int \<times> int \<Rightarrow> bool \<Rightarrow> player" where
  "player_init x y radius speed step bounds sprite_loaded =
     \<lparr> p_start_x = x, p_start_y = y, p_radius = radius, p_speed = speed, p_step = step,
       p_bounds = bounds, p_x = of_int x, p_y = of_int y,
       p_move_cooldown = 0, p_cooldown_time = 9 / 100,
       p_sprite = (if sprite_loaded then Some (radius * 2 + 10, radius * 2 + 10) else None) \<rparr>"

definition player_reset :: "player \<Rightarrow> player" where
  "player_reset p = p\<lparr> p_x := of_int (p_start_x p), p_y := of_int (p_start_y p), p_move_cooldown := 0 \<rparr>"

text \<open>The property \<open>Player.rect\<close>: the collision rectangle centred on the position.\<close>

definition player_rect :: "player \<Rightarrow> rect" where
  "player_rect p =
    (case p_sprite p of
       Some (w, h) \<Rightarrow>
         (let shrink_x = py_int (of_int w * (28 / 100));
              shrink_y = py_int (of_int h * (32 / 100));
              cw = max 8 (w - shrink_x);
              ch = max 8 (h - shrink_y)
          in Rect (py_int (p_x p - of_int cw / 2)) (py_int (p_y p - of_int ch / 2)) cw ch)
     | None \<Rightarrow>
         (let r = p_radius p;
              shrink = max 0 (py_int (of_int r * (35 / 100)));
              cr = max 6 (r - shrink)
          in Rect (py_int (p_x p - of_int cr)) (py_int (p_y p - of_int cr)) (cr * 2) (cr * 2)))"

text \<open>The displacement \<open>(dx, dy)\<close> that the \<open>if\<close>/\<open>elif\<close> chain assigns to a key.\<close>

fun key_delta :: "int \<Rightarrow> key \<Rightarrow> int \<times> int" where
  "key_delta step K_UP = (0, - step)"
| "key_delta step K_w = (0, - step)"
| "key_delta step K_DOWN = (0, step)"
| "key_delta step K_s = (0, step)"
| "key_delta step K_LEFT = (- step, 0)"
| "key_delta step K_a = (- step, 0)"
| "key_delta step K_RIGHT = (step, 0)"
| "key_delta step K_d = (step, 0)"
| "key_delta step K_OTHER = (0, 0)"

text \<open>One iteration of the loop \<open>for event in events\<close> of \<open>Player.update\<close>.\<close>

fun handle_event :: "player \<Rightarrow> event \<Rightarrow> player" where
  "handle_event p (KEYDOWN k) =
     (if p_move_cooldown p \<le> 0 then
        (let (dx, dy) = key_delta (p_step p) k
         in if dx \<noteq> 0 \<or> dy \<noteq> 0
            then p\<lparr> p_x := p_x p + of_int dx, p_y := p_y p + of_int dy,
                    p_move_cooldown := p_cooldown_time p \<rparr>
            else p)
      else p)"
| "handle_event p OTHER_EVENT = p"

text \<open>The clamp at the end of \<open>Player.update\<close>.\<close>

definition clamp_to_bounds :: "player \<Rightarrow> player" where
  "clamp_to_bounds p =
    (case p_bounds p of (b_left, b_top, b_width, b_height) \<Rightarrow>
       (let b_right = b_left + b_width;
            b_bottom = b_top + b_height
        in p\<lparr> p_x := max (of_int (b_left + p_radius p)) (min (of_int (b_right - p_radius p)) (p_x p)),
               p_y := max (of_int (b_top + p_radius p)) (min (of_int (b_bottom - p_radius p)) (p_y p)) \<rparr>))"

definition player_update :: "rat \<Rightarrow> event list \<Rightarrow> player \<Rightarrow> player" where
  "player_update dt events p =
    (let p = p\<lparr> p_move_cooldown := max 0 (p_move_cooldown p - dt) \<rparr>;
         p = foldl handle_event p events
     in clamp_to_bounds p)"



section \<open>Level session (level.py, class \<open>Level\<close>)\<close>


text \<open>
  The scrolling road background and the finish-line image are drawing state: the
  simulation neither reads them nor depends on whether they could be loaded.
\<close>

record level =
  lv_config :: level_cfg
  lv_screen_width :: int
  lv_screen_height :: int
  lv_lane_height :: int
  lv_lane_count :: int
  lv_finish_padding :: int
  lv_safe_zone_height :: int
  lv_player :: player
  lv_lanes :: "lane list"
  lv_time_elapsed :: rat
  lv_running :: bool
  lv_won :: bool
  lv_lost :: bool

text \<open>
  The body of the loop \<open>for i, lane_cfg in enumerate(config["lanes"])\<close> of
  \<open>Level.__init__\<close>.
\<close>

definition level_lane :: "int \<Rightarrow> int \<Rightarrow> int \<Rightarrow> int \<Rightarrow> nat \<Rightarrow> lane_cfg \<Rightarrow> lane" where
  "level_lane screen_width screen_height safe_zone_height lane_height i lc =
    (let lane_y_center =
           of_int (screen_height - safe_zone_height) - (of_nat i + 1 / 2) * of_int lane_height;
         lane_rect = Rect 0 (py_int (lane_y_center - of_int lane_height / 2)) screen_width lane_height;
         car_height = max 26 (py_int (of_int lane_height * (115 / 100)));
         car_width = max 90 (py_int (of_int car_height * (149 / 100)))
     in lane_init lane_rect (cfg_direction lc) (cfg_speed lc) (cfg_spawn_every lc)
          car_width car_height (case cfg_gap_min lc of None \<Rightarrow> 140 | Some g \<Rightarrow> g))"

definition level_init :: "level_cfg \<Rightarrow> int \<times> int \<Rightarrow> bool \<Rightarrow> level" where
  "level_init config screen_size sprite_loaded =
    (case screen_size of (screen_width, screen_height) \<Rightarrow>
      (let lane_height = cfg_lane_height config;
           lane_count = cfg_lane_count config;
           finish_padding = (case cfg_finish_padding config of None \<Rightarrow> 30 | Some v \<Rightarrow> v);
           safe_zone_height = lane_height;
           start_x = screen_width div 2;
           start_y = screen_height - (safe_zone_height div 2);
           player = player_init start_x start_y 18
                      (case cfg_player_speed config of None \<Rightarrow> 420 | Some v \<Rightarrow> v)
                      lane_height (0, 0, screen_width, screen_height) sprite_loaded;
           lanes = map (\<lambda>(i, lc). level_lane screen_width screen_height safe_zone_height lane_height i lc)
                     (enumerate 0 (cfg_lanes config))
       in \<lparr> lv_config = config,
            lv_screen_width = screen_width,
            lv_screen_height = screen_height,
            lv_lane_height = lane_height,
            lv_lane_count = lane_count,
            lv_finish_padding = finish_padding,
            lv_safe_zone_height = safe_zone_height,
            lv_player = player,
            lv_lanes = lanes,
            lv_time_elapsed = 0,
            lv_running = False,
            lv_won = False,
            lv_lost = False \<rparr>))"

text \<open>
  \<open>Level.start\<close>.  \<open>rnd i\<close> holds the random draws of \<open>Lane.reset\<close> for the lane with
  index \<open>i\<close>: the seed count and the candidate positions.
\<close>

definition level_start :: "(nat \<Rightarrow> int \<times> int list) \<Rightarrow> level \<Rightarrow> level" where
  "level_start rnd s =
     s\<lparr> lv_time_elapsed := 0,
        lv_running := True,
        lv_won := False,
        lv_lost := False,
        lv_player := player_reset (lv_player s),
        lv_lanes := map (\<lambda>(i, L). lane_reset (fst (rnd i)) (snd (rnd i)) L) (enumerate 0 (lv_lanes s)) \<rparr>"


definition finish_line_y :: "level \<Rightarrow> int" where
  "finish_line_y s =
     lv_screen_height s - lv_safe_zone_height s - (lv_lane_count s * lv_lane_height s)"

text \<open>The shrunken hitbox of an obstacle, as computed in the collision loop.\<close>

definition hitbox :: "obstacle \<Rightarrow> rect" where
  "hitbox ob =
    (let pad_x = max 6 (py_int (of_int (rect_w (o_rect ob)) * (16 / 100)));
         pad_y = max 4 (py_int (of_int (rect_h (o_rect ob)) * (20 / 100)))
     in inflate (- pad_x) (- pad_y) (o_rect ob))"

text \<open>
  The two nested collision loops of \<open>Level.update\<close>; \<open>True\<close> is the early \<open>return\<close>
  at the first hit.
\<close>

fun hits_obstacles :: "rect \<Rightarrow> obstacle list \<Rightarrow> bool" where
  "hits_obstacles pr [] = False"
| "hits_obstacles pr (ob # obs) =
     (if colliderect pr (hitbox ob) then True else hits_obstacles pr obs)"

fun hits_lanes :: "rect \<Rightarrow> lane list \<Rightarrow> bool" where
  "hits_lanes pr [] = False"
| "hits_lanes pr (L # Ls) =
     (if hits_obstacles pr (l_obstacles L) then True else hits_lanes pr Ls)"

text \<open>
  The first half of a running \<open>Level.update\<close>: the clock, the player and the lanes
  advance.
\<close>

definition advance_world :: "rat \<Rightarrow> event list \<Rightarrow> level \<Rightarrow> level" where
  "advance_world dt events s =
    (let s = s\<lparr> lv_time_elapsed := lv_time_elapsed s + dt \<rparr>;
         s = s\<lparr> lv_player := player_update dt events (lv_player s) \<rparr>
     in s\<lparr> lv_lanes := map (lane_update dt (lv_screen_width s)) (lv_lanes s) \<rparr>)"

definition level_update :: "rat \<Rightarrow> event list \<Rightarrow> level \<Rightarrow> level" where
  "level_update dt events s =
    (if \<not> lv_running s \<or> lv_won s \<or> lv_lost s then s
     else let s = advance_world dt events s;
              player_rect = player_rect (lv_player s)
          in if hits_lanes player_rect (lv_lanes s)
             then s\<lparr> lv_lost := True, lv_running := False \<rparr>
             else if p_y (lv_player s) \<le> of_int (finish_line_y s)
                  then s\<lparr> lv_won := True, lv_running := False \<rparr>
                  else s)"

text \<open>
  The states a session can be in: a freshly constructed level, and whatever \<open>start\<close>
  and \<open>update\<close> make of a reachable state.
\<close>

inductive reachable :: "level \<Rightarrow> bool" where
  r_init: "reachable (level_init config screen_size sprite_loaded)"
| r_start: "reachable s \<Longrightarrow> reachable (level_start rnd s)"
| r_update: "reachable s \<Longrightarrow> reachable (level_update dt events s)"


section \<open>Runs and invariants\<close>

text \<open>
  Sequences of calls, the lanes that can exist (constructed, then reset and updated in
  any order), and the two properties that reset and update maintain: the obstacles of
  a lane share its obstacle size, speed and direction, and they are pairwise at least
  \<open>min_gap\<close> apart along the x axis.
\<close>

definition apart :: "int \<Rightarrow> obstacle \<Rightarrow> obstacle \<Rightarrow> bool" where
  "apart g a b \<longleftrightarrow>
     rect_right (o_rect a) + g \<le> rect_left (o_rect b)
   \<or> rect_right (o_rect b) + g \<le> rect_left (o_rect a)"

definition fits :: "lane \<Rightarrow> obstacle \<Rightarrow> bool" where
  "fits L ob \<longleftrightarrow>
     rect_w (o_rect ob) = l_obstacle_width L
   \<and> rect_h (o_rect ob) = l_obstacle_height L
   \<and> o_speed ob = l_speed L
   \<and> o_direction ob = l_direction L"

definition lane_uniform :: "lane \<Rightarrow> bool" where
  "lane_uniform L \<longleftrightarrow>
     (l_direction L = 1 \<or> l_direction L = - 1) \<and> list_all (fits L) (l_obstacles L)"

definition lane_gaps :: "lane \<Rightarrow> bool" where
  "lane_gaps L \<longleftrightarrow> sorted_wrt (apart (l_min_gap L)) (l_obstacles L)"

definition lane_updates :: "(rat \<times> int) list \<Rightarrow> lane \<Rightarrow> lane" where
  "lane_updates calls L = foldl (\<lambda>K (dt, screen_width). lane_update dt screen_width K) L calls"

inductive lane_state :: "lane \<Rightarrow> bool" where
  ls_init: "lane_state (lane_init r direction speed spawn_every obstacle_width obstacle_height min_gap)"
| ls_reset: "lane_state L \<Longrightarrow> lane_state (lane_reset seed_count candidates L)"
| ls_update: "lane_state L \<Longrightarrow> lane_state (lane_update dt screen_width L)"

definition level_updates :: "(rat \<times> event list) list \<Rightarrow> level \<Rightarrow> level" where
  "level_updates calls s = foldl (\<lambda>q (dt, events). level_update dt events q) s calls"







section \<open>Example sessions\<close>

text \<open>
  A configuration without lanes and with star thresholds \<open>t3\<close> and \<open>t2\<close>, on a screen of
  900 by 700 pixels: the session is started, and one key press \<open>Up\<close> in an update of
  \<open>t\<close> seconds takes the player from \<open>y = 665\<close> to \<open>y = 595\<close>, above the finish line at
  \<open>y = 630\<close>.
\<close>

definition bare_cfg :: "rat \<Rightarrow> rat \<Rightarrow> level_cfg" where
  "bare_cfg t3 t2 =
     \<lparr> cfg_name = ''Bare'', cfg_lane_count = 0, cfg_lane_height = 70,
       cfg_finish_padding = None, cfg_player_step = 70, cfg_player_speed = None,
       cfg_star_times = [''3'' \<mapsto> t3, ''2'' \<mapsto> t2], cfg_lanes = [] \<rparr>"

definition bare_started :: "rat \<Rightarrow> rat \<Rightarrow> level" where
  "bare_started t3 t2 = level_start (\<lambda>i. (1, [])) (level_init (bare_cfg t3 t2) (900, 700) False)"



text \<open>
  A right-moving lane of level 1, seeded with two obstacles and updated once by two
  seconds, which spawns a third obstacle; and the first level on a screen of 900 by
  700 pixels, every lane seeded with one obstacle at \<open>x = 400\<close>.
\<close>

definition road_lane :: lane where
  "road_lane = lane_init (Rect 0 560 900 70) 1 170 (5 / 4) 119 80 165"

definition road_lane_run :: lane where
  "road_lane_run = lane_updates [(2, 900)] (lane_reset 2 [700, 400, 100] road_lane)"

definition road_started :: level where
  "road_started = level_start (\<lambda>i. (1, [400])) (level_init (make_level 1) (900, 700) False)"





section \<open>Properties of the level generator\<close>

lemma make_level_clamp: "make_level k = make_level (max 1 (min 10 k))"
  by (simp add: make_level_def)

lemma lanes_nth:
  "i < nat (5 + max 1 (min 10 k)) \<Longrightarrow>
   cfg_lanes (make_level k) ! i = make_lane (max 1 (min 10 k)) (int i)"
  by (simp add: make_level_def Let_def)

text \<open>
  Claim C2.  For every integer difficulty index \<open>k\<close> the generator returns the
  configuration of \<open>n = max(1, min(10, k))\<close>, so an index below 1 behaves as 1 and an
  index above 10 as 10; the lane height is \<open>70 - (n - 1)\<close>, the lane count \<open>5 + n\<close>, and
  lane \<open>i\<close> has direction \<open>+1\<close> for even and \<open>-1\<close> for odd \<open>i\<close>, speed
  \<open>170 + (n - 1) * 28 + i * 6\<close>, spawn interval \<open>max(0.55, 1.25 - (n - 1) * 0.06 - i * 0.01)\<close>,
  width \<open>120 - (n - 1) * 3\<close> clamped to \<open>[70, 130]\<close> and minimum gap
  \<open>max(95, 165 - (n - 1) * 6 - i)\<close>; hence every lane has a minimum gap of at least 95
  and a spawn interval of at least 0.55.
\<close>

theorem make_level_formulas:
  "let n = max 1 (min 10 k); c = make_level k in
     c = make_level n
   \<and> (k < 1 \<longrightarrow> c = make_level 1)
   \<and> (k > 10 \<longrightarrow> c = make_level 10)
   \<and> cfg_lane_height c = 70 - (n - 1)
   \<and> cfg_lane_count c = 5 + n
   \<and> length (cfg_lanes c) = nat (cfg_lane_count c)
   \<and> (\<forall>i < nat (cfg_lane_count c).
        cfg_direction (cfg_lanes c ! i) = (if even i then 1 else - 1)
      \<and> cfg_speed (cfg_lanes c ! i) = of_int (170 + (n - 1) * 28 + int i * 6)
      \<and> cfg_spawn_every (cfg_lanes c ! i)
          = max (55 / 100) (125 / 100 - of_int (n - 1) * (6 / 100) - of_nat i * (1 / 100))
      \<and> cfg_width (cfg_lanes c ! i) = max 70 (min 130 (120 - (n - 1) * 3))
      \<and> cfg_gap_min (cfg_lanes c ! i) = Some (max 95 (165 - (n - 1) * 6 - int i))
      \<and> (\<exists>g. cfg_gap_min (cfg_lanes c ! i) = Some g \<and> g \<ge> 95)
      \<and> cfg_spawn_every (cfg_lanes c ! i) \<ge> 55 / 100)"
proof -
  define n where "n = max 1 (min 10 k)"
  define c where "c = make_level k"
  have c: "c = make_level n"
    unfolding n_def c_def by (rule make_level_clamp)
  have lo: "k < 1 \<longrightarrow> c = make_level 1"
    unfolding c by (simp add: n_def)
  have hi: "k > 10 \<longrightarrow> c = make_level 10"
    unfolding c by (simp add: n_def)
  have h: "cfg_lane_height c = 70 - (n - 1)"
    and cnt: "cfg_lane_count c = 5 + n"
    by (simp_all add: c_def make_level_def n_def Let_def)
  have len: "length (cfg_lanes c) = nat (cfg_lane_count c)"
    by (simp add: c_def make_level_def Let_def)
  have lane: "cfg_lanes c ! i = make_lane n (int i)" if "i < nat (cfg_lane_count c)" for i
    using that unfolding n_def c_def cnt [unfolded c_def n_def] by (rule lanes_nth)
  have dir: "cfg_direction (make_lane n (int i)) = (if even i then 1 else - 1)" for i
    by (simp add: make_lane_def Let_def even_iff_mod_2_eq_zero) presburger
  have speed: "cfg_speed (make_lane n (int i)) = of_int (170 + (n - 1) * 28 + int i * 6)" for i
    by (simp add: make_lane_def Let_def)
  have spawn: "cfg_spawn_every (make_lane n (int i))
      = max (55 / 100) (125 / 100 - of_int (n - 1) * (6 / 100) - of_nat i * (1 / 100))" for i
    by (simp add: make_lane_def Let_def)
  have width: "cfg_width (make_lane n (int i)) = max 70 (min 130 (120 - (n - 1) * 3))" for i
    by (simp add: make_lane_def Let_def)
  have gap: "cfg_gap_min (make_lane n (int i)) = Some (max 95 (165 - (n - 1) * 6 - int i))" for i
    by (simp add: make_lane_def Let_def)
  have gap95: "\<exists>g. cfg_gap_min (make_lane n (int i)) = Some g \<and> g \<ge> 95" for i
    by (simp add: gap)
  have spawn55: "cfg_spawn_every (make_lane n (int i)) \<ge> 55 / 100" for i
    by (simp add: spawn)
  have lanes: "\<forall>i < nat (cfg_lane_count c).
        cfg_direction (cfg_lanes c ! i) = (if even i then 1 else - 1)
      \<and> cfg_speed (cfg_lanes c ! i) = of_int (170 + (n - 1) * 28 + int i * 6)
      \<and> cfg_spawn_every (cfg_lanes c ! i)
          = max (55 / 100) (125 / 100 - of_int (n - 1) * (6 / 100) - of_nat i * (1 / 100))
      \<and> cfg_width (cfg_lanes c ! i) = max 70 (min 130 (120 - (n - 1) * 3))
      \<and> cfg_gap_min (cfg_lanes c ! i) = Some (max 95 (165 - (n - 1) * 6 - int i))
      \<and> (\<exists>g. cfg_gap_min (cfg_lanes c ! i) = Some g \<and> g \<ge> 95)
      \<and> cfg_spawn_every (cfg_lanes c ! i) \<ge> 55 / 100"
  proof (intro allI impI)
    fix i
    assume "i < nat (cfg_lane_count c)"
    then have L: "cfg_lanes c ! i = make_lane n (int i)"
      by (rule lane)
    show "cfg_direction (cfg_lanes c ! i) = (if even i then 1 else - 1)
      \<and> cfg_speed (cfg_lanes c ! i) = of_int (170 + (n - 1) * 28 + int i * 6)
      \<and> cfg_spawn_every (cfg_lanes c ! i)
          = max (55 / 100) (125 / 100 - of_int (n - 1) * (6 / 100) - of_nat i * (1 / 100))
      \<and> cfg_width (cfg_lanes c ! i) = max 70 (min 130 (120 - (n - 1) * 3))
      \<and> cfg_gap_min (cfg_lanes c ! i) = Some (max 95 (165 - (n - 1) * 6 - int i))
      \<and> (\<exists>g. cfg_gap_min (cfg_lanes c ! i) = Some g \<and> g \<ge> 95)
      \<and> cfg_spawn_every (cfg_lanes c ! i) \<ge> 55 / 100"
      unfolding L by (intro conjI) (rule dir speed spawn width gap gap95 spawn55)+
  qed
  show ?thesis
    unfolding Let_def n_def [symmetric] c_def [symmetric]
    using c lo hi h cnt len lanes by blast
qed

theorem make_level_formulas_witness:
  "make_level 11 = make_level 10
   \<and> cfg_lane_height (make_level 11) = 61
   \<and> cfg_lane_count (make_level 11) = 15
   \<and> (3::nat) < nat (cfg_lane_count (make_level 11))
   \<and> cfg_direction (cfg_lanes (make_level 11) ! 3) = - 1
   \<and> cfg_speed (cfg_lanes (make_level 11) ! 3) = 440
   \<and> cfg_spawn_every (cfg_lanes (make_level 11) ! 3) = 68 / 100
   \<and> cfg_width (cfg_lanes (make_level 11) ! 3) = 93
   \<and> cfg_gap_min (cfg_lanes (make_level 11) ! 3) = Some 108"
  using make_level_formulas [of 11]
  apply (simp add: Let_def)
  apply (elim conjE)
  apply (drule_tac x = 3 in spec)
  apply simp
  done

text \<open>
  Claim C9.  For every \<open>n\<close> from 1 to 10 the generated three-star threshold
  \<open>max(8.0, 13.0 - (n - 1) * 0.4)\<close> is at most the generated two-star threshold
  \<open>max(12.0, 20.0 - (n - 1) * 0.45)\<close>.
\<close>

theorem star_thresholds_ordered:
  assumes "1 \<le> n" and "n \<le> 10"
  shows "cfg_star_times (make_level n) ''3'' = Some (max 8 (13 - of_int (n - 1) * (4 / 10)))
       \<and> cfg_star_times (make_level n) ''2'' = Some (max 12 (20 - of_int (n - 1) * (45 / 100)))
       \<and> max 8 (13 - of_int (n - 1) * (4 / 10)) \<le> (max 12 (20 - of_int (n - 1) * (45 / 100)) :: rat)"
proof -
  have n: "max 1 (min 10 n) = n"
    using assms by simp
  have t3: "cfg_star_times (make_level n) ''3'' = Some (max 8 (13 - of_int (n - 1) * (4 / 10)))"
    by (simp add: make_level_def Let_def n)
  have t2: "cfg_star_times (make_level n) ''2'' = Some (max 12 (20 - of_int (n - 1) * (45 / 100)))"
    by (simp add: make_level_def Let_def n)
  have "(of_int (n - 1) :: rat) \<ge> 0"
    using assms by simp
  moreover have "(of_int (n - 1) :: rat) \<le> 9"
    using assms by simp
  ultimately have "max 8 (13 - of_int (n - 1) * (4 / 10)) \<le> (max 12 (20 - of_int (n - 1) * (45 / 100)) :: rat)"
    unfolding max_def by (auto simp: field_simps)
  with t3 t2 show ?thesis by simp
qed

theorem star_thresholds_ordered_witness:
  "(1::int) \<le> 10 \<and> (10::int) \<le> 10
   \<and> cfg_star_times (make_level 10) ''3'' = Some (94 / 10)
   \<and> cfg_star_times (make_level 10) ''2'' = Some (1595 / 100)
   \<and> (94 / 10 :: rat) \<le> 1595 / 100"
  using star_thresholds_ordered [of 10] by simp



section \<open>Properties of obstacles\<close>






section \<open>Properties of lanes\<close>

subsection \<open>Lists\<close>

lemma apart_sym: "apart g a b = apart g b a"
  by (auto simp: apart_def)

lemma sorted_wrt_insort_sym:
  assumes "\<And>a b. P a b = P b a"
  shows "sorted_wrt P (insort_key f x xs) \<longleftrightarrow> sorted_wrt P xs \<and> (\<forall>y \<in> set xs. P x y)"
  using assms by (induction xs) (auto simp: set_insort_key)

lemma sorted_wrt_sort_key_sym:
  assumes "\<And>a b. P a b = P b a"
  shows "sorted_wrt P (sort_key f xs) = sorted_wrt P xs"
proof (induction xs)
  case Nil
  show ?case by simp
next
  case (Cons x xs)
  have "sort_key f (x # xs) = insort_key f x (sort_key f xs)"
    by (simp add: sort_key_def)
  then show ?case
    using Cons by (auto simp: sorted_wrt_insort_sym [OF assms])
qed

lemma min_by_in: "min_by f xs = Some m \<Longrightarrow> m \<in> set xs \<and> (\<forall>x \<in> set xs. f m \<le> f x)"
proof (cases xs)
  case Nil
  then show "min_by f xs = Some m \<Longrightarrow> ?thesis" by simp
next
  case (Cons a as)
  have "foldl (\<lambda>best y. if f y < f best then y else best) b ys \<in> set (b # ys)
      \<and> (\<forall>x \<in> set (b # ys). f (foldl (\<lambda>best y. if f y < f best then y else best) b ys) \<le> f x)"
    for b ys
  proof (induction ys arbitrary: b)
    case Nil
    show ?case by simp
  next
    case (Cons y ys)
    show ?case
      using Cons [of "if f y < f b then y else b"] by (auto split: if_splits)
  qed
  from this [of a as] show "min_by f xs = Some m \<Longrightarrow> ?thesis"
    using Cons by auto
qed

lemma max_by_in: "max_by f xs = Some m \<Longrightarrow> m \<in> set xs \<and> (\<forall>x \<in> set xs. f x \<le> f m)"
proof (cases xs)
  case Nil
  then show "max_by f xs = Some m \<Longrightarrow> ?thesis" by simp
next
  case (Cons a as)
  have "foldl (\<lambda>best y. if f y > f best then y else best) b ys \<in> set (b # ys)
      \<and> (\<forall>x \<in> set (b # ys). f x \<le> f (foldl (\<lambda>best y. if f y > f best then y else best) b ys))"
    for b ys
  proof (induction ys arbitrary: b)
    case Nil
    show ?case by simp
  next
    case (Cons y ys)
    show ?case
      using Cons [of "if f y > f b then y else b"] by (auto split: if_splits)
  qed
  from this [of a as] show "max_by f xs = Some m \<Longrightarrow> ?thesis"
    using Cons by auto
qed

lemma min_by_None: "min_by f xs = None \<longleftrightarrow> xs = []"
  by (cases xs) simp_all

lemma max_by_None: "max_by f xs = None \<longleftrightarrow> xs = []"
  by (cases xs) simp_all


subsection \<open>Obstacles keep their place relative to each other\<close>

lemma obstacle_update_fields:
  "rect_w (o_rect (obstacle_update dt ob)) = rect_w (o_rect ob)"
  "rect_h (o_rect (obstacle_update dt ob)) = rect_h (o_rect ob)"
  "rect_y (o_rect (obstacle_update dt ob)) = rect_y (o_rect ob)"
  "o_speed (obstacle_update dt ob) = o_speed ob"
  "o_direction (obstacle_update dt ob) = o_direction ob"
  by (simp_all add: obstacle_update_def)

lemma apart_obstacle_update:
  assumes "o_speed a = o_speed b" "o_direction a = o_direction b"
  shows "apart g (obstacle_update dt a) (obstacle_update dt b) = apart g a b"
  using assms by (auto simp: apart_def obstacle_update_def rect_right_def rect_left_def)

lemma sorted_wrt_cong_set:
  assumes "\<And>a b. a \<in> set xs \<Longrightarrow> b \<in> set xs \<Longrightarrow> P (f a) (f b) = Q a b"
  shows "sorted_wrt P (map f xs) = sorted_wrt Q xs"
  using assms by (induction xs) (auto simp: sorted_wrt_map)

text \<open>For obstacles of one width in ascending order of x, being apart means that the
  one on the left ends a gap before the one on the right starts.\<close>

lemma apart_ordered:
  assumes "apart g a b" "rect_x (o_rect a) \<le> rect_x (o_rect b)"
    "rect_w (o_rect a) = rect_w (o_rect b)"
  shows "rect_right (o_rect a) + g \<le> rect_left (o_rect b)"
  using assms by (auto simp: apart_def rect_right_def rect_left_def)

lemma push_back_right_id:
  assumes "sorted (map (\<lambda>ob. rect_x (o_rect ob)) obs)"
    "sorted_wrt (apart g) obs"
    "\<forall>ob \<in> set obs. rect_w (o_rect ob) = w"
  shows "push_back_right g obs = obs"
  using assms
proof (induction g obs rule: push_back_right.induct)
  case (1 g)
  show ?case by simp
next
  case (2 g ob)
  show ?case by simp
next
  case (3 g b v va)
  have rest: "push_back_right g (v # va) = v # va"
    using "3.prems" by (intro "3.IH") auto
  have "rect_right (o_rect b) + g \<le> rect_left (o_rect v)"
    using "3.prems" by (intro apart_ordered) auto
  then show ?case
    by (simp add: rest Let_def)
qed

lemma push_back_left_id:
  assumes "sorted (map (\<lambda>ob. rect_x (o_rect ob)) (front # obs))"
    "sorted_wrt (apart g) (front # obs)"
    "\<forall>ob \<in> set (front # obs). rect_w (o_rect ob) = w"
  shows "push_back_left g front obs = obs"
  using assms
proof (induction obs arbitrary: front)
  case Nil
  show ?case by simp
next
  case (Cons b obs)
  have "rect_right (o_rect front) + g \<le> rect_left (o_rect b)"
    using Cons.prems by (intro apart_ordered) auto
  moreover have "push_back_left g b obs = obs"
    using Cons.prems by (intro Cons.IH) auto
  ultimately show ?case
    by (simp add: Let_def)
qed


subsection \<open>The steps of a lane update\<close>

lemma fits_update: "fits L ob \<Longrightarrow> fits L (obstacle_update dt ob)"
  by (simp add: fits_def obstacle_update_fields)

lemma fits_static [simp]:
  "fits (L\<lparr> l_obstacles := obs \<rparr>) = fits L"
  "fits (L\<lparr> l_spawn_timer := t \<rparr>) = fits L"
  by (simp_all add: fits_def fun_eq_iff)

lemma moved_apart:
  assumes "list_all (fits L) obs" "sorted_wrt (apart g) obs"
  shows "sorted_wrt (apart g) (map (obstacle_update dt) obs)"
proof -
  have "apart g (obstacle_update dt a) (obstacle_update dt b) = apart g a b"
    if "a \<in> set obs" "b \<in> set obs" for a b
    using that assms(1) by (intro apart_obstacle_update) (auto simp: list_all_iff fits_def)
  then have "sorted_wrt (apart g) (map (obstacle_update dt) obs) = sorted_wrt (apart g) obs"
    by (rule sorted_wrt_cong_set)
  with assms(2) show ?thesis by simp
qed

lemma fix_gaps_sorted:
  assumes "list_all (fits L) obs" "sorted_wrt (apart (l_min_gap L)) obs"
  shows "fix_gaps L obs = (if length obs > 1 then sort_key (\<lambda>ob. rect_x (o_rect ob)) obs else obs)"
proof (cases "length obs > 1")
  case False
  then show ?thesis by (simp add: fix_gaps_def)
next
  case True
  define s where "s = sort_key (\<lambda>ob. rect_x (o_rect ob)) obs"
  have set: "set s = set obs" and len: "length s = length obs"
    by (simp_all add: s_def)
  have srt: "sorted (map (\<lambda>ob. rect_x (o_rect ob)) s)"
    by (simp add: s_def)
  have ap: "sorted_wrt (apart (l_min_gap L)) s"
    unfolding s_def using assms(2) apart_sym
    by (subst sorted_wrt_sort_key_sym) auto
  have w: "\<forall>ob \<in> set s. rect_w (o_rect ob) = l_obstacle_width L"
    using assms(1) by (auto simp: set list_all_iff fits_def)
  have r: "push_back_right (l_min_gap L) s = s"
    using srt ap w by (rule push_back_right_id)
  obtain f t where ft: "s = f # t"
    using True len by (cases s) auto
  have l: "push_back_left (l_min_gap L) f t = t"
    using srt ap w unfolding ft by (rule push_back_left_id)
  show ?thesis
    using True r l by (simp add: fix_gaps_def Let_def s_def [symmetric]) (simp add: ft)
qed

lemma fix_gaps_inv:
  assumes "list_all (fits L) obs" "sorted_wrt (apart (l_min_gap L)) obs"
  shows "list_all (fits L) (fix_gaps L obs) \<and> sorted_wrt (apart (l_min_gap L)) (fix_gaps L obs)"
proof -
  have "sorted_wrt (apart (l_min_gap L)) (sort_key (\<lambda>ob. rect_x (o_rect ob)) obs)"
    using assms(2) apart_sym by (subst sorted_wrt_sort_key_sym) auto
  moreover have "list_all (fits L) (sort_key (\<lambda>ob. rect_x (o_rect ob)) obs)"
    using assms(1) by (simp add: list_all_iff)
  ultimately show ?thesis
    using assms by (simp add: fix_gaps_sorted [OF assms])
qed

lemma remove_offscreen_inv:
  assumes "list_all (fits L) obs" "sorted_wrt (apart g) obs"
  shows "list_all (fits L) (remove_offscreen w L obs) \<and> sorted_wrt (apart g) (remove_offscreen w L obs)"
  using assms by (simp add: remove_offscreen_def list_all_iff sorted_wrt_filter)

lemma spawn_right_of_new:
  assumes "l_direction L > 0" "ob \<in> set (l_obstacles L)"
  shows "rect_right (o_rect (spawn_obstacle w L)) + l_min_gap L \<le> rect_left (o_rect ob)"
proof -
  obtain m where m: "min_by (\<lambda>ob. rect_left (o_rect ob)) (l_obstacles L) = Some m"
    using assms(2) by (cases "min_by (\<lambda>ob. rect_left (o_rect ob)) (l_obstacles L)")
      (auto simp: min_by_None)
  from min_by_in [OF m] assms(2) have "rect_left (o_rect m) \<le> rect_left (o_rect ob)"
    by blast
  then show ?thesis
    using assms(1)
    by (simp add: spawn_obstacle_def Let_def m obstacle_init_def Rect_def rect_right_def)
qed

lemma spawn_left_of_new:
  assumes "\<not> l_direction L > 0" "ob \<in> set (l_obstacles L)"
  shows "rect_right (o_rect ob) + l_min_gap L \<le> rect_left (o_rect (spawn_obstacle w L))"
proof -
  obtain m where m: "max_by (\<lambda>ob. rect_right (o_rect ob)) (l_obstacles L) = Some m"
    using assms(2) by (cases "max_by (\<lambda>ob. rect_right (o_rect ob)) (l_obstacles L)")
      (auto simp: max_by_None)
  from max_by_in [OF m] assms(2) have "rect_right (o_rect ob) \<le> rect_right (o_rect m)"
    by blast
  then show ?thesis
    using assms(1)
    by (simp add: spawn_obstacle_def Let_def m obstacle_init_def Rect_def rect_left_def)
qed

lemma spawn_apart:
  "ob \<in> set (l_obstacles L) \<Longrightarrow> apart (l_min_gap L) ob (spawn_obstacle w L)"
  using spawn_right_of_new [of L ob w] spawn_left_of_new [of L ob w]
  by (auto simp: apart_def)

lemma spawn_fits:
  "l_direction L = 1 \<or> l_direction L = - 1 \<Longrightarrow> fits L (spawn_obstacle w L)"
  by (auto simp: fits_def spawn_obstacle_def Let_def obstacle_init_def Rect_def)


subsection \<open>Reset and update keep a lane uniform and its obstacles apart\<close>

lemma lane_update_static:
  "l_rect (lane_update dt w L) = l_rect L"
  "l_direction (lane_update dt w L) = l_direction L"
  "l_speed (lane_update dt w L) = l_speed L"
  "l_spawn_every (lane_update dt w L) = l_spawn_every L"
  "l_obstacle_width (lane_update dt w L) = l_obstacle_width L"
  "l_obstacle_height (lane_update dt w L) = l_obstacle_height L"
  "l_min_gap (lane_update dt w L) = l_min_gap L"
  by (simp_all add: lane_update_def lane_spawn_def Let_def)

lemma lane_reset_static:
  "l_rect (lane_reset n cs L) = l_rect L"
  "l_direction (lane_reset n cs L) = l_direction L"
  "l_speed (lane_reset n cs L) = l_speed L"
  "l_spawn_every (lane_reset n cs L) = l_spawn_every L"
  "l_obstacle_width (lane_reset n cs L) = l_obstacle_width L"
  "l_obstacle_height (lane_reset n cs L) = l_obstacle_height L"
  "l_min_gap (lane_reset n cs L) = l_min_gap L"
  by (simp_all add: lane_reset_def Let_def)

lemma lane_update_obstacles:
  "l_obstacles (lane_update dt w L) =
    (let obs = remove_offscreen w L (fix_gaps L (map (obstacle_update dt) (l_obstacles L)));
         K = L\<lparr> l_obstacles := obs, l_spawn_timer := 0 \<rparr>
     in if l_spawn_timer L + dt \<ge> l_spawn_every L \<and> lane_can_spawn w K
        then obs @ [spawn_obstacle w K] else obs)"
  by (simp add: lane_update_def lane_spawn_def Let_def)

lemma lane_update_inv:
  assumes "lane_uniform L" "lane_gaps L"
  shows "lane_uniform (lane_update dt w L) \<and> lane_gaps (lane_update dt w L)"
proof -
  define moved where "moved = map (obstacle_update dt) (l_obstacles L)"
  define obs where "obs = remove_offscreen w L (fix_gaps L moved)"
  define K where "K = L\<lparr> l_obstacles := obs, l_spawn_timer := 0 \<rparr>"
  have dir: "l_direction L = 1 \<or> l_direction L = - 1"
    and f0: "list_all (fits L) (l_obstacles L)"
    and a0: "sorted_wrt (apart (l_min_gap L)) (l_obstacles L)"
    using assms by (simp_all add: lane_uniform_def lane_gaps_def)
  have f1: "list_all (fits L) moved"
    using f0 by (simp add: moved_def list_all_iff fits_update)
  have a1: "sorted_wrt (apart (l_min_gap L)) moved"
    unfolding moved_def using f0 a0 by (rule moved_apart)
  have 2: "list_all (fits L) (fix_gaps L moved) \<and> sorted_wrt (apart (l_min_gap L)) (fix_gaps L moved)"
    using f1 a1 by (rule fix_gaps_inv)
  have f3: "list_all (fits L) obs" and a3: "sorted_wrt (apart (l_min_gap L)) obs"
    unfolding obs_def using 2 remove_offscreen_inv by blast+
  have K: "l_obstacles K = obs" "l_min_gap K = l_min_gap L" "fits K = fits L"
    "l_direction K = l_direction L"
    by (simp_all add: K_def)
  have new_fits: "fits L (spawn_obstacle w K)"
    using spawn_fits [of K w] dir by (simp add: K)
  have new_apart: "\<forall>ob \<in> set obs. apart (l_min_gap L) ob (spawn_obstacle w K)"
    using spawn_apart [of _ K w] by (simp add: K)
  have f4: "list_all (fits L) (obs @ [spawn_obstacle w K])"
    using f3 new_fits by simp
  have a4: "sorted_wrt (apart (l_min_gap L)) (obs @ [spawn_obstacle w K])"
    using a3 new_apart by (simp add: sorted_wrt_append)
  have o: "l_obstacles (lane_update dt w L) = obs \<or>
      l_obstacles (lane_update dt w L) = obs @ [spawn_obstacle w K]"
    by (simp add: lane_update_obstacles Let_def obs_def moved_def K_def)
  have fl: "fits (lane_update dt w L) = fits L"
    by (simp add: fits_def fun_eq_iff lane_update_static)
  show ?thesis
    unfolding lane_uniform_def lane_gaps_def fl
    using o dir f3 a3 f4 a4 by (auto simp: lane_update_static)
qed

lemma gap_ok_apart:
  "apart g (obstacle_init r s d) (obstacle_init p s d) = gap_ok g r p"
  by (auto simp: apart_def gap_ok_def obstacle_init_def)

lemma gap_ok_sym: "gap_ok g p r = gap_ok g r p"
  by (auto simp: gap_ok_def)

lemma place_seeds_inv:
  assumes "sorted_wrt (gap_ok (l_min_gap L)) placed"
    "\<forall>r \<in> set placed. rect_w r = l_obstacle_width L \<and> rect_h r = l_obstacle_height L"
  shows "sorted_wrt (gap_ok (l_min_gap L)) (place_seeds L n y xs placed)
    \<and> (\<forall>r \<in> set (place_seeds L n y xs placed).
          rect_w r = l_obstacle_width L \<and> rect_h r = l_obstacle_height L)"
  using assms
proof (induction xs arbitrary: placed)
  case Nil
  then show ?case by simp
next
  case (Cons x xs)
  define c where "c = Rect x y (l_obstacle_width L) (l_obstacle_height L)"
  have size: "rect_w c = l_obstacle_width L \<and> rect_h c = l_obstacle_height L"
    by (simp add: c_def Rect_def)
  show ?case
  proof (cases "int (length placed) \<ge> n")
    case True
    then show ?thesis
      using Cons.prems by simp
  next
    case False
    show ?thesis
    proof (cases "list_all (gap_ok (l_min_gap L) c) placed")
      case True
      have "\<forall>p \<in> set placed. gap_ok (l_min_gap L) p c"
        using True gap_ok_sym [of "l_min_gap L" _ c] by (auto simp: list_all_iff)
      then have 1: "sorted_wrt (gap_ok (l_min_gap L)) (placed @ [c])"
        using Cons.prems(1) by (simp add: sorted_wrt_append)
      have 2: "\<forall>r \<in> set (placed @ [c]). rect_w r = l_obstacle_width L \<and> rect_h r = l_obstacle_height L"
        using Cons.prems(2) size by auto
      have "place_seeds L n y (x # xs) placed = place_seeds L n y xs (placed @ [c])"
        using False True by (simp add: Let_def c_def)
      then show ?thesis
        using Cons.IH [OF 1 2] by simp
    next
      case no: False
      have "place_seeds L n y (x # xs) placed = place_seeds L n y xs placed"
        using False no by (simp add: Let_def c_def)
      then show ?thesis
        using Cons.IH [OF Cons.prems] by simp
    qed
  qed
qed

lemma lane_reset_inv:
  assumes "l_direction L = 1 \<or> l_direction L = - 1"
  shows "lane_uniform (lane_reset n cs L) \<and> lane_gaps (lane_reset n cs L)"
proof -
  define y where "y = rect_centery (l_rect L) - l_obstacle_height L div 2"
  define placed where "placed = place_seeds L n y (sort cs) []"
  define obs where "obs = map (\<lambda>r. obstacle_init r (l_speed L) (l_direction L)) placed"
  have p: "sorted_wrt (gap_ok (l_min_gap L)) placed
    \<and> (\<forall>r \<in> set placed. rect_w r = l_obstacle_width L \<and> rect_h r = l_obstacle_height L)"
    unfolding placed_def by (rule place_seeds_inv) simp_all
  have f: "list_all (fits L) obs"
    using p assms by (auto simp: obs_def list_all_iff fits_def obstacle_init_def)
  have a: "sorted_wrt (apart (l_min_gap L)) obs"
    using p by (simp add: obs_def sorted_wrt_map gap_ok_apart)
  have o: "l_obstacles (lane_reset n cs L) = sort_key (\<lambda>ob. rect_x (o_rect ob)) obs"
    by (simp add: lane_reset_def Let_def obs_def placed_def y_def)
  have fl: "fits (lane_reset n cs L) = fits L"
    by (simp add: fits_def fun_eq_iff lane_reset_static)
  have "sorted_wrt (apart (l_min_gap L)) (sort_key (\<lambda>ob. rect_x (o_rect ob)) obs)"
    using a apart_sym by (subst sorted_wrt_sort_key_sym) auto
  moreover have "list_all (fits L) (sort_key (\<lambda>ob. rect_x (o_rect ob)) obs)"
    using f by (simp add: list_all_iff)
  ultimately show ?thesis
    unfolding lane_uniform_def lane_gaps_def fl o
    using assms by (simp add: lane_reset_static)
qed

lemma lane_state_direction: "lane_state L \<Longrightarrow> l_direction L = 1 \<or> l_direction L = - 1"
  by (induction rule: lane_state.induct)
     (simp_all add: lane_init_def lane_reset_static lane_update_static)

lemma lane_updates_inv:
  "lane_uniform L \<Longrightarrow> lane_gaps L \<Longrightarrow>
   lane_uniform (lane_updates calls L) \<and> lane_gaps (lane_updates calls L)"
  unfolding lane_updates_def
proof (induction calls arbitrary: L)
  case Nil
  then show ?case by simp
next
  case (Cons c calls)
  obtain dt w where c: "c = (dt, w)" by (cases c)
  show ?case
    using Cons.IH [of "lane_update dt w L"] lane_update_inv [OF Cons.prems, of dt w]
    by (simp add: c)
qed

lemma lane_updates_static:
  "l_min_gap (lane_updates calls L) = l_min_gap L"
  "l_obstacle_width (lane_updates calls L) = l_obstacle_width L"
  unfolding lane_updates_def
  by (induction calls arbitrary: L) (auto simp: lane_update_static)


lemma lane_run_inv:
  assumes "lane_state L"
  shows "lane_uniform (lane_updates calls (lane_reset n cs L))
       \<and> lane_gaps (lane_updates calls (lane_reset n cs L))"
  using lane_reset_inv [OF lane_state_direction [OF assms], of n cs] lane_updates_inv
  by blast

lemma sorted_adjacent_gap:
  assumes "list_all (fits L) obs" "sorted_wrt (apart g) obs" "Suc i < length obs"
  shows "rect_right (o_rect (sort_key (\<lambda>ob. rect_x (o_rect ob)) obs ! i)) + g
      \<le> rect_left (o_rect (sort_key (\<lambda>ob. rect_x (o_rect ob)) obs ! Suc i))"
proof -
  define s where "s = sort_key (\<lambda>ob. rect_x (o_rect ob)) obs"
  have len: "Suc i < length s"
    using assms(3) by (simp add: s_def)
  have ap: "sorted_wrt (apart g) s"
    unfolding s_def using assms(2) apart_sym by (subst sorted_wrt_sort_key_sym) auto
  have "sorted (map (\<lambda>ob. rect_x (o_rect ob)) s)"
    by (simp add: s_def)
  then have x: "rect_x (o_rect (s ! i)) \<le> rect_x (o_rect (s ! Suc i))"
    using len sorted_nth_mono [of "map (\<lambda>ob. rect_x (o_rect ob)) s" i "Suc i"] by simp
  have "set s = set obs"
    by (simp add: s_def)
  then have w: "rect_w (o_rect (s ! i)) = rect_w (o_rect (s ! Suc i))"
    using assms(1) len nth_mem [of i s] nth_mem [of "Suc i" s]
    by (auto simp: list_all_iff fits_def)
  have "apart g (s ! i) (s ! Suc i)"
    using ap len by (simp add: sorted_wrt_iff_nth_less)
  then show ?thesis
    unfolding s_def [symmetric] using x w by (rule apart_ordered)
qed

text \<open>
  Claim C1.  For every lane, after \<open>reset()\<close> and after each of any finite sequence of
  \<open>update(dt, screen_width)\<close> calls that follows it, any two distinct obstacles of the
  lane are at least \<open>min_gap\<close> apart along the x axis, and in ascending order of x each
  obstacle ends at least \<open>min_gap\<close> before the next one starts.  An obstacle created by
  \<open>_spawn\<close> is at least \<open>min_gap\<close> behind every obstacle of the lane at that moment,
  whatever the state of the lane.
\<close>

theorem lane_min_gap_invariant:
  "(lane_state L \<longrightarrow>
      (\<forall>i < length (l_obstacles (lane_updates calls (lane_reset seed_count candidates L))).
       \<forall>j < length (l_obstacles (lane_updates calls (lane_reset seed_count candidates L))).
         i \<noteq> j \<longrightarrow>
           rect_right (o_rect (l_obstacles (lane_updates calls (lane_reset seed_count candidates L)) ! i))
               + l_min_gap L
             \<le> rect_left (o_rect (l_obstacles (lane_updates calls (lane_reset seed_count candidates L)) ! j))
         \<or> rect_right (o_rect (l_obstacles (lane_updates calls (lane_reset seed_count candidates L)) ! j))
               + l_min_gap L
             \<le> rect_left (o_rect (l_obstacles (lane_updates calls (lane_reset seed_count candidates L)) ! i)))
    \<and> (\<forall>i. Suc i < length (l_obstacles (lane_updates calls (lane_reset seed_count candidates L))) \<longrightarrow>
           rect_right (o_rect (sort_key (\<lambda>ob. rect_x (o_rect ob))
               (l_obstacles (lane_updates calls (lane_reset seed_count candidates L))) ! i)) + l_min_gap L
             \<le> rect_left (o_rect (sort_key (\<lambda>ob. rect_x (o_rect ob))
               (l_obstacles (lane_updates calls (lane_reset seed_count candidates L))) ! Suc i))))
   \<and> (\<forall>ob \<in> set (l_obstacles M).
        (l_direction M > 0 \<longrightarrow>
           rect_right (o_rect (spawn_obstacle w M)) + l_min_gap M \<le> rect_left (o_rect ob))
      \<and> (\<not> l_direction M > 0 \<longrightarrow>
           rect_right (o_rect ob) + l_min_gap M \<le> rect_left (o_rect (spawn_obstacle w M))))
   \<and> l_obstacles (lane_spawn w M) = l_obstacles M @ [spawn_obstacle w M]"
proof (intro conjI impI allI ballI)
  define K where "K = lane_updates calls (lane_reset seed_count candidates L)"
  define obs where "obs = l_obstacles K"
  assume L: "lane_state L"
  have inv: "lane_uniform K" "lane_gaps K"
    unfolding K_def using lane_run_inv [OF L] by blast+
  have g: "l_min_gap K = l_min_gap L"
    by (simp add: K_def lane_updates_static lane_reset_static)
  have ap: "sorted_wrt (apart (l_min_gap L)) obs"
    using inv(2) by (simp add: lane_gaps_def g obs_def)
  have f: "list_all (fits K) obs"
    using inv(1) by (simp add: lane_uniform_def obs_def)
  {
    fix i j
    assume ij: "i < length obs" "j < length obs" "i \<noteq> j"
    have "apart (l_min_gap L) (obs ! i) (obs ! j)"
    proof (cases "i < j")
      case True
      with ap ij show ?thesis by (simp add: sorted_wrt_iff_nth_less)
    next
      case False
      with ij have "j < i" by simp
      with ap ij have "apart (l_min_gap L) (obs ! j) (obs ! i)"
        by (simp add: sorted_wrt_iff_nth_less)
      then show ?thesis by (simp add: apart_sym)
    qed
    then show "rect_right (o_rect (obs ! i)) + l_min_gap L \<le> rect_left (o_rect (obs ! j))
         \<or> rect_right (o_rect (obs ! j)) + l_min_gap L \<le> rect_left (o_rect (obs ! i))"
      by (simp add: apart_def)
  }
  {
    fix i
    assume "Suc i < length obs"
    with f ap show "rect_right (o_rect (sort_key (\<lambda>ob. rect_x (o_rect ob)) obs ! i)) + l_min_gap L
             \<le> rect_left (o_rect (sort_key (\<lambda>ob. rect_x (o_rect ob)) obs ! Suc i))"
      by (rule sorted_adjacent_gap)
  }
next
  fix ob
  assume "ob \<in> set (l_obstacles M)" "l_direction M > 0"
  then show "rect_right (o_rect (spawn_obstacle w M)) + l_min_gap M \<le> rect_left (o_rect ob)"
    by (simp add: spawn_right_of_new)
next
  fix ob
  assume "ob \<in> set (l_obstacles M)" "\<not> l_direction M > 0"
  then show "rect_right (o_rect ob) + l_min_gap M \<le> rect_left (o_rect (spawn_obstacle w M))"
    by (simp add: spawn_left_of_new)
next
  show "l_obstacles (lane_spawn w M) = l_obstacles M @ [spawn_obstacle w M]"
    by (simp add: lane_spawn_def)
qed

lemma road_lane_state: "lane_state road_lane"
  unfolding road_lane_def by (rule ls_init)

theorem lane_min_gap_invariant_witness:
  "lane_state road_lane
   \<and> (0::nat) < length (l_obstacles (lane_updates [(2, 900)] (lane_reset 2 [700, 400, 100] road_lane)))
   \<and> (2::nat) < length (l_obstacles (lane_updates [(2, 900)] (lane_reset 2 [700, 400, 100] road_lane)))
   \<and> (0::nat) \<noteq> 2
   \<and> rect_left (o_rect (l_obstacles (lane_updates [(2, 900)] (lane_reset 2 [700, 400, 100] road_lane)) ! 0)) = 440
   \<and> rect_right (o_rect (l_obstacles (lane_updates [(2, 900)] (lane_reset 2 [700, 400, 100] road_lane)) ! 2)) = - 20
   \<and> l_min_gap road_lane = 165
   \<and> rect_right (o_rect (l_obstacles (lane_updates [(2, 900)] (lane_reset 2 [700, 400, 100] road_lane)) ! 2))
        + l_min_gap road_lane
        \<le> rect_left (o_rect (l_obstacles (lane_updates [(2, 900)] (lane_reset 2 [700, 400, 100] road_lane)) ! 0))"
proof -
  have len: "length (l_obstacles road_lane_run) = 3"
    by code_simp
  have l0: "rect_left (o_rect (l_obstacles road_lane_run ! 0)) = 440"
    by code_simp
  have r0: "rect_right (o_rect (l_obstacles road_lane_run ! 0)) = 559"
    by code_simp
  have l2: "rect_left (o_rect (l_obstacles road_lane_run ! 2)) = - 139"
    by code_simp
  have r2: "rect_right (o_rect (l_obstacles road_lane_run ! 2)) = - 20"
    by code_simp
  have g: "l_min_gap road_lane = 165"
    by code_simp
  note T = lane_min_gap_invariant [of road_lane "[(2, 900)]" 2 "[700, 400, 100]",
      THEN conjunct1, THEN mp, OF road_lane_state, THEN conjunct1,
      folded road_lane_run_def, rule_format, of 0 2]
  have "rect_right (o_rect (l_obstacles road_lane_run ! 0)) + l_min_gap road_lane
          \<le> rect_left (o_rect (l_obstacles road_lane_run ! 2))
      \<or> rect_right (o_rect (l_obstacles road_lane_run ! 2)) + l_min_gap road_lane
          \<le> rect_left (o_rect (l_obstacles road_lane_run ! 0))"
    by (rule T) (simp_all add: len)
  then have "rect_right (o_rect (l_obstacles road_lane_run ! 2)) + l_min_gap road_lane
          \<le> rect_left (o_rect (l_obstacles road_lane_run ! 0))"
    by (simp add: r0 l2 g)
  then show ?thesis
    unfolding road_lane_run_def [symmetric]
    using road_lane_state len l0 r2 g by simp
qed


section \<open>Properties of the level session\<close>

lemma advance_world_frame:
  "lv_config (advance_world dt events s) = lv_config s"
  "lv_screen_width (advance_world dt events s) = lv_screen_width s"
  "lv_screen_height (advance_world dt events s) = lv_screen_height s"
  "lv_lane_height (advance_world dt events s) = lv_lane_height s"
  "lv_lane_count (advance_world dt events s) = lv_lane_count s"
  "lv_finish_padding (advance_world dt events s) = lv_finish_padding s"
  "lv_safe_zone_height (advance_world dt events s) = lv_safe_zone_height s"
  "lv_running (advance_world dt events s) = lv_running s"
  "lv_won (advance_world dt events s) = lv_won s"
  "lv_lost (advance_world dt events s) = lv_lost s"
  by (simp_all add: advance_world_def Let_def)

lemma advance_world_moved:
  "lv_time_elapsed (advance_world dt events s) = lv_time_elapsed s + dt"
  "lv_player (advance_world dt events s) = player_update dt events (lv_player s)"
  "lv_lanes (advance_world dt events s) = map (lane_update dt (lv_screen_width s)) (lv_lanes s)"
  by (simp_all add: advance_world_def Let_def)

lemma finish_line_y_advance:
  "finish_line_y (advance_world dt events s) = finish_line_y s"
  by (simp add: finish_line_y_def advance_world_frame)









lemma level_update_flags:
  "\<not> (lv_won (level_update dt events s) \<and> lv_lost (level_update dt events s))
     \<or> (lv_won s \<and> lv_lost s)"
  by (simp add: level_update_def Let_def advance_world_frame)

lemma reachable_not_both: "reachable s \<Longrightarrow> \<not> (lv_won s \<and> lv_lost s)"
proof (induction rule: reachable.induct)
  case (r_init config screen_size sprite_loaded)
  show ?case by (cases screen_size) (simp add: level_init_def Let_def)
next
  case (r_start s rnd)
  show ?case by (simp add: level_start_def)
next
  case (r_update s dt events)
  with level_update_flags [of dt events s] show ?case by blast
qed

lemma level_update_done: "lv_won s \<or> lv_lost s \<Longrightarrow> level_update dt events s = s"
  by (auto simp: level_update_def)

lemma level_updates_done: "lv_won s \<or> lv_lost s \<Longrightarrow> level_updates calls s = s"
  unfolding level_updates_def
  by (induction calls) (auto simp: level_update_done)

text \<open>
  Claim C6.  In every state a session can reach, the won and the lost flag are not both
  set.  Once either is set, \<open>Level.update\<close> changes nothing: the state after the call,
  and after any sequence of calls, is the state before (elapsed time, flags, player and
  lanes included).  \<open>start()\<close> clears both flags, zeroes the clock and makes the session
  run again.
\<close>

theorem won_lost_terminal:
  "(reachable s \<longrightarrow> \<not> (lv_won s \<and> lv_lost s))
   \<and> (lv_won s \<or> lv_lost s \<longrightarrow>
        level_update dt events s = s \<and> level_updates calls s = s)
   \<and> lv_running (level_start rnd s) \<and> \<not> lv_won (level_start rnd s)
   \<and> \<not> lv_lost (level_start rnd s) \<and> lv_time_elapsed (level_start rnd s) = 0"
  using reachable_not_both [of s] level_update_done [of s dt events]
    level_updates_done [of s calls]
  by (simp add: level_start_def)

lemma road_lost: "lv_lost (level_update 0 [KEYDOWN K_UP] road_started)"
  by code_simp

lemma road_reachable: "reachable (level_update 0 [KEYDOWN K_UP] road_started)"
  unfolding road_started_def by (intro reachable.intros)

theorem won_lost_terminal_witness:
  "reachable (level_update 0 [KEYDOWN K_UP] road_started)
   \<and> lv_lost (level_update 0 [KEYDOWN K_UP] road_started)
   \<and> \<not> lv_won (level_update 0 [KEYDOWN K_UP] road_started)
   \<and> level_update (1 / 60) [KEYDOWN K_DOWN] (level_update 0 [KEYDOWN K_UP] road_started)
       = level_update 0 [KEYDOWN K_UP] road_started
   \<and> level_updates [(1 / 60, [KEYDOWN K_DOWN]), (1 / 60, [])] (level_update 0 [KEYDOWN K_UP] road_started)
       = level_update 0 [KEYDOWN K_UP] road_started"
  using won_lost_terminal [of "level_update 0 [KEYDOWN K_UP] road_started" "1 / 60" "[KEYDOWN K_DOWN]"
      "[(1 / 60, [KEYDOWN K_DOWN]), (1 / 60, [])]"]
    road_lost road_reachable
  by blast


lemma hits_obstacles_iff:
  "hits_obstacles pr obs \<longleftrightarrow> (\<exists>ob \<in> set obs. colliderect pr (hitbox ob))"
  by (induction obs) auto

lemma hits_lanes_iff:
  "hits_lanes pr Ls \<longleftrightarrow> (\<exists>L \<in> set Ls. \<exists>ob \<in> set (l_obstacles L). colliderect pr (hitbox ob))"
  by (induction Ls) (auto simp: hits_obstacles_iff)

lemma hits_lanes_order:
  assumes "(\<Union>L \<in> set Ls. set (l_obstacles L)) = (\<Union>L \<in> set Ls'. set (l_obstacles L))"
  shows "hits_lanes pr Ls = hits_lanes pr Ls'"
proof -
  have "hits_lanes pr Ks \<longleftrightarrow> (\<exists>ob \<in> (\<Union>L \<in> set Ks. set (l_obstacles L)). colliderect pr (hitbox ob))"
    for Ks
    unfolding hits_lanes_iff by blast
  then show ?thesis
    by (simp only: assms)
qed

lemma level_update_running:
  assumes "lv_running s" "\<not> lv_won s" "\<not> lv_lost s"
  shows "level_update dt events s =
    (let s' = advance_world dt events s
     in if hits_lanes (player_rect (lv_player s')) (lv_lanes s')
        then s'\<lparr> lv_lost := True, lv_running := False \<rparr>
        else if p_y (lv_player s') \<le> of_int (finish_line_y s')
             then s'\<lparr> lv_won := True, lv_running := False \<rparr>
             else s')"
  using assms by (simp add: level_update_def Let_def)

text \<open>
  Claim C4.  While the session is running, \<open>Level.update\<close> sets the lost flag on that
  tick exactly when the shrunken hitbox of some obstacle of some lane collides with the
  player's collision rectangle, both taken after the player and the lanes have moved.
  The hitbox is the obstacle's rectangle deflated by \<open>pad_x = max(6, int(0.16 * width))\<close>
  on the x axis and \<open>pad_y = max(4, int(0.20 * height))\<close> on the y axis, the percentages
  cut to whole pixels.  The result of the collision loops depends only on the set of
  obstacles, not on the order of the lanes or of the obstacles in them.
\<close>

theorem lost_iff_hitbox_collision:
  "(lv_running s \<and> \<not> lv_won s \<and> \<not> lv_lost s \<longrightarrow>
      (lv_lost (level_update dt events s) \<longleftrightarrow>
         (\<exists>L \<in> set (lv_lanes (advance_world dt events s)).
          \<exists>ob \<in> set (l_obstacles L).
            colliderect (player_rect (lv_player (advance_world dt events s)))
              (inflate (- max 6 (py_int (of_int (rect_w (o_rect ob)) * (16 / 100))))
                       (- max 4 (py_int (of_int (rect_h (o_rect ob)) * (20 / 100))))
                       (o_rect ob))))
    \<and> lv_lanes (level_update dt events s) = lv_lanes (advance_world dt events s)
    \<and> lv_player (level_update dt events s) = lv_player (advance_world dt events s))
   \<and> ((\<Union>L \<in> set Ls. set (l_obstacles L)) = (\<Union>L \<in> set Ls'. set (l_obstacles L)) \<longrightarrow>
        hits_lanes pr Ls = hits_lanes pr Ls')"
proof -
  have h: "hitbox ob = inflate (- max 6 (py_int (of_int (rect_w (o_rect ob)) * (16 / 100))))
                       (- max 4 (py_int (of_int (rect_h (o_rect ob)) * (20 / 100))))
                       (o_rect ob)" for ob
    by (simp add: hitbox_def Let_def)
  show ?thesis
    using hits_lanes_order [of Ls Ls' pr]
    by (auto simp: level_update_running Let_def advance_world_frame hits_lanes_iff h)
qed

text \<open>
  Claim C5.  The finish line is at \<open>screen_height - safe_zone_height - lane_count *
  lane_height\<close>.  While the session is running and no collision is found on the tick,
  \<open>Level.update\<close> sets the won flag exactly when the player's y coordinate after the
  tick's move is at or above the finish line (\<open>y \<le> finish_line_y\<close>); a tick with a
  collision never sets it.
\<close>

theorem win_iff_finish_line:
  "finish_line_y s = lv_screen_height s - lv_safe_zone_height s - lv_lane_count s * lv_lane_height s
   \<and> (lv_running s \<and> \<not> lv_won s \<and> \<not> lv_lost s
        \<and> \<not> hits_lanes (player_rect (lv_player (advance_world dt events s)))
              (lv_lanes (advance_world dt events s)) \<longrightarrow>
        (lv_won (level_update dt events s) \<longleftrightarrow>
           p_y (lv_player (level_update dt events s)) \<le> of_int (finish_line_y s))
      \<and> lv_player (level_update dt events s) = player_update dt events (lv_player s)
      \<and> finish_line_y (level_update dt events s) = finish_line_y s
      \<and> \<not> lv_lost (level_update dt events s))
   \<and> (lv_running s \<and> \<not> lv_won s \<and> \<not> lv_lost s
        \<and> hits_lanes (player_rect (lv_player (advance_world dt events s)))
              (lv_lanes (advance_world dt events s)) \<longrightarrow>
        \<not> lv_won (level_update dt events s))"
  by (auto simp: level_update_running Let_def advance_world_frame advance_world_moved
      finish_line_y_advance finish_line_y_def)


lemma road_started_flags:
  "lv_running road_started" "\<not> lv_won road_started" "\<not> lv_lost road_started"
  by (simp_all add: road_started_def level_start_def)

theorem lost_iff_hitbox_collision_witness:
  "lv_running road_started \<and> \<not> lv_won road_started \<and> \<not> lv_lost road_started
   \<and> hd (lv_lanes (advance_world 0 [KEYDOWN K_UP] road_started))
        \<in> set (lv_lanes (advance_world 0 [KEYDOWN K_UP] road_started))
   \<and> hd (l_obstacles (hd (lv_lanes (advance_world 0 [KEYDOWN K_UP] road_started))))
        \<in> set (l_obstacles (hd (lv_lanes (advance_world 0 [KEYDOWN K_UP] road_started))))
   \<and> o_rect (hd (l_obstacles (hd (lv_lanes (advance_world 0 [KEYDOWN K_UP] road_started)))))
        = Rect 400 555 119 80
   \<and> inflate (- 19) (- 16) (Rect 400 555 119 80) = Rect 409 563 100 64
   \<and> player_rect (lv_player (advance_world 0 [KEYDOWN K_UP] road_started)) = Rect 438 583 24 24
   \<and> colliderect (Rect 438 583 24 24) (Rect 409 563 100 64)
   \<and> lv_lost (level_update 0 [KEYDOWN K_UP] road_started)
   \<and> \<not> lv_lost (level_update 0 [] road_started)
   \<and> hits_lanes (Rect 438 583 24 24) (rev (lv_lanes (advance_world 0 [KEYDOWN K_UP] road_started)))
       = hits_lanes (Rect 438 583 24 24) (lv_lanes (advance_world 0 [KEYDOWN K_UP] road_started))"
proof -
  let ?a = "advance_world 0 [KEYDOWN K_UP] road_started"
  let ?L = "hd (lv_lanes ?a)"
  let ?ob = "hd (l_obstacles ?L)"
  have L: "?L \<in> set (lv_lanes ?a)"
    by code_simp
  have ob: "?ob \<in> set (l_obstacles ?L)"
    by code_simp
  have r: "o_rect ?ob = Rect 400 555 119 80"
    by code_simp
  have i: "inflate (- 19) (- 16) (Rect 400 555 119 80) = Rect 409 563 100 64"
    by code_simp
  have hb: "colliderect (player_rect (lv_player ?a))
              (inflate (- max 6 (py_int (of_int (rect_w (o_rect ?ob)) * (16 / 100))))
                       (- max 4 (py_int (of_int (rect_h (o_rect ?ob)) * (20 / 100))))
                       (o_rect ?ob))"
    by code_simp
  have p: "player_rect (lv_player ?a) = Rect 438 583 24 24"
    by code_simp
  have c: "colliderect (Rect 438 583 24 24) (Rect 409 563 100 64)"
    by code_simp
  have hit: "\<exists>L \<in> set (lv_lanes ?a). \<exists>ob \<in> set (l_obstacles L).
            colliderect (player_rect (lv_player ?a))
              (inflate (- max 6 (py_int (of_int (rect_w (o_rect ob)) * (16 / 100))))
                       (- max 4 (py_int (of_int (rect_h (o_rect ob)) * (20 / 100))))
                       (o_rect ob))"
    using L ob hb by blast
  have lost: "lv_lost (level_update 0 [KEYDOWN K_UP] road_started)"
    using lost_iff_hitbox_collision [of road_started 0 "[KEYDOWN K_UP]", THEN conjunct1, THEN mp,
        THEN conjunct1] road_started_flags hit
    by blast
  have miss: "\<not> (\<exists>L \<in> set (lv_lanes (advance_world 0 [] road_started)).
          \<exists>ob \<in> set (l_obstacles L).
            colliderect (player_rect (lv_player (advance_world 0 [] road_started)))
              (inflate (- max 6 (py_int (of_int (rect_w (o_rect ob)) * (16 / 100))))
                       (- max 4 (py_int (of_int (rect_h (o_rect ob)) * (20 / 100))))
                       (o_rect ob)))"
    by code_simp
  have safe: "\<not> lv_lost (level_update 0 [] road_started)"
    using lost_iff_hitbox_collision [of road_started 0 "[]", THEN conjunct1, THEN mp,
        THEN conjunct1] road_started_flags miss
    by blast
  have "(\<Union>L \<in> set (rev (lv_lanes ?a)). set (l_obstacles L)) = (\<Union>L \<in> set (lv_lanes ?a). set (l_obstacles L))"
    by simp
  then have order: "hits_lanes (Rect 438 583 24 24) (rev (lv_lanes ?a))
      = hits_lanes (Rect 438 583 24 24) (lv_lanes ?a)"
    by (rule lost_iff_hitbox_collision [THEN conjunct2, THEN mp])
  show ?thesis
    using road_started_flags L ob r i p c lost safe order by simp
qed

theorem win_iff_finish_line_witness:
  "lv_running (bare_started 10 15) \<and> \<not> lv_won (bare_started 10 15) \<and> \<not> lv_lost (bare_started 10 15)
   \<and> \<not> hits_lanes (player_rect (lv_player (advance_world 9 [KEYDOWN K_UP] (bare_started 10 15))))
          (lv_lanes (advance_world 9 [KEYDOWN K_UP] (bare_started 10 15)))
   \<and> \<not> hits_lanes (player_rect (lv_player (advance_world 9 [] (bare_started 10 15))))
          (lv_lanes (advance_world 9 [] (bare_started 10 15)))
   \<and> finish_line_y (bare_started 10 15) = 630
   \<and> p_y (lv_player (level_update 9 [KEYDOWN K_UP] (bare_started 10 15))) = 595
   \<and> lv_won (level_update 9 [KEYDOWN K_UP] (bare_started 10 15))
   \<and> p_y (lv_player (level_update 9 [] (bare_started 10 15))) = 665
   \<and> \<not> lv_won (level_update 9 [] (bare_started 10 15))"
proof -
  let ?s = "bare_started 10 15"
  have flags: "lv_running ?s" "\<not> lv_won ?s" "\<not> lv_lost ?s"
    by (simp_all add: bare_started_def level_start_def)
  have free: "\<not> hits_lanes (player_rect (lv_player (advance_world 9 [KEYDOWN K_UP] ?s)))
          (lv_lanes (advance_world 9 [KEYDOWN K_UP] ?s))"
    "\<not> hits_lanes (player_rect (lv_player (advance_world 9 [] ?s))) (lv_lanes (advance_world 9 [] ?s))"
    by code_simp+
  have f: "finish_line_y ?s = 630"
    by code_simp
  have up: "p_y (player_update 9 [KEYDOWN K_UP] (lv_player ?s)) = 595"
    by code_simp
  have stay: "p_y (player_update 9 [] (lv_player ?s)) = 665"
    by code_simp
  note U = win_iff_finish_line [of ?s 9 "[KEYDOWN K_UP]", THEN conjunct2, THEN conjunct1, THEN mp]
  note N = win_iff_finish_line [of ?s 9 "[]", THEN conjunct2, THEN conjunct1, THEN mp]
  have u: "(lv_won (level_update 9 [KEYDOWN K_UP] ?s) \<longleftrightarrow>
           p_y (lv_player (level_update 9 [KEYDOWN K_UP] ?s)) \<le> of_int (finish_line_y ?s))
      \<and> lv_player (level_update 9 [KEYDOWN K_UP] ?s) = player_update 9 [KEYDOWN K_UP] (lv_player ?s)"
    using U flags free(1) by blast
  have n: "(lv_won (level_update 9 [] ?s) \<longleftrightarrow>
           p_y (lv_player (level_update 9 [] ?s)) \<le> of_int (finish_line_y ?s))
      \<and> lv_player (level_update 9 [] ?s) = player_update 9 [] (lv_player ?s)"
    using N flags free(2) by blast
  have "lv_won (level_update 9 [KEYDOWN K_UP] ?s)"
    using u by (simp add: up f)
  moreover have "\<not> lv_won (level_update 9 [] ?s)"
    using n by (simp add: stay f)
  ultimately show ?thesis
    using flags free f u n up stay by simp
qed
















section \<open>Properties of the player\<close>






























end
